theory Spec2Isabelle
  imports Main "HOL-Library.Sublist" "HOL-Library.AList"
begin

section \<open>Text primitives of the agent\<close>

text \<open>
  The agent (\<^verbatim>\<open>ecommerce-agent/agent.py\<close>) works on Python strings. A string is modelled
  as a \<^typ>\<open>string\<close> whose characters are the code points below 256. On these,
  \<^verbatim>\<open>str.lower\<close> maps the letters A to Z and the capital letters U+00C0 to U+00DE (the
  multiplication sign U+00D7 apart) to the letter 32 places up and leaves every other
  character alone, and \<^verbatim>\<open>str.isspace\<close> holds of the space, of U+0009 to U+000D, of U+001C
  to U+001F, of U+0085 and of U+00A0. Python's \<^verbatim>\<open>sub in s\<close> is \<^const>\<open>sublist\<close> \<open>sub s\<close>
  (a contiguous occurrence), \<^verbatim>\<open>s.startswith(p)\<close> is \<^const>\<open>prefix\<close> \<open>p s\<close>.
\<close>

definition lower_char :: "char \<Rightarrow> char" where
  "lower_char c =
     (case map_of
        (zip (''ABCDEFGHIJKLMNOPQRSTUVWXYZ'' @
          [CHR 0xC0, CHR 0xC1, CHR 0xC2, CHR 0xC3, CHR 0xC4, CHR 0xC5, CHR 0xC6, CHR 0xC7,
           CHR 0xC8, CHR 0xC9, CHR 0xCA, CHR 0xCB, CHR 0xCC, CHR 0xCD, CHR 0xCE, CHR 0xCF,
           CHR 0xD0, CHR 0xD1, CHR 0xD2, CHR 0xD3, CHR 0xD4, CHR 0xD5, CHR 0xD6, CHR 0xD8,
           CHR 0xD9, CHR 0xDA, CHR 0xDB, CHR 0xDC, CHR 0xDD, CHR 0xDE])
             (''abcdefghijklmnopqrstuvwxyz'' @
          [CHR 0xE0, CHR 0xE1, CHR 0xE2, CHR 0xE3, CHR 0xE4, CHR 0xE5, CHR 0xE6, CHR 0xE7,
           CHR 0xE8, CHR 0xE9, CHR 0xEA, CHR 0xEB, CHR 0xEC, CHR 0xED, CHR 0xEE, CHR 0xEF,
           CHR 0xF0, CHR 0xF1, CHR 0xF2, CHR 0xF3, CHR 0xF4, CHR 0xF5, CHR 0xF6, CHR 0xF8,
           CHR 0xF9, CHR 0xFA, CHR 0xFB, CHR 0xFC, CHR 0xFD, CHR 0xFE])) c of
        Some d \<Rightarrow> d
      | None \<Rightarrow> c)"

definition lower :: "string \<Rightarrow> string" where
  "lower s = map lower_char s"

definition isspace :: "char \<Rightarrow> bool" where
  "isspace c \<longleftrightarrow>
     c \<in> set [CHR '' '', CHR 0x09, CHR 0x0A, CHR 0x0B, CHR 0x0C, CHR 0x0D,
               CHR 0x1C, CHR 0x1D, CHR 0x1E, CHR 0x1F, CHR 0x85, CHR 0xA0]"

definition lstrip :: "string \<Rightarrow> string" where
  "lstrip s = dropWhile isspace s"

definition rstrip :: "string \<Rightarrow> string" where
  "rstrip s = rev (dropWhile isspace (rev s))"

definition strip :: "string \<Rightarrow> string" where
  "strip s = rstrip (lstrip s)"

text \<open>\<^verbatim>\<open>s.rstrip(';')\<close>: every trailing occurrence of the given character is removed.\<close>

definition rstrip_char :: "char \<Rightarrow> string \<Rightarrow> string" where
  "rstrip_char ch s = rev (dropWhile (\<lambda>c. c = ch) (rev s))"

section \<open>The SQL validator\<close>

text \<open>
  \<^verbatim>\<open>re.sub(r'```sql|```', '', sql, flags=re.IGNORECASE)\<close> scans from the left. At a
  position where three backticks start, the first alternative is tried first: when the
  next three characters are \<^verbatim>\<open>sql\<close> in any case, all six characters are dropped, otherwise
  the three backticks are. Anywhere else the character is kept and the scan moves on by one.
\<close>

fun remove_fences :: "string \<Rightarrow> string" where
  "remove_fences (a # b # c # rest) =
     (if a = CHR 0x60 \<and> b = CHR 0x60 \<and> c = CHR 0x60
      then (if lower (take 3 rest) = ''sql''
            then remove_fences (drop 3 rest)
            else remove_fences rest)
      else a # remove_fences (b # c # rest))"
| "remove_fences s = s"

datatype error =
    InvalidQueryKind string
  | GenerationFailure string
  | ExecutionFailure string

fun str :: "error \<Rightarrow> string" where
  "str (InvalidQueryKind m) = m"
| "str (GenerationFailure m) = m"
| "str (ExecutionFailure m) = m"

definition forbidden :: "string list" where
  "forbidden =
     [''insert '', ''update '', ''delete '', ''drop '', ''alter '', ''truncate '', ''create '']"

definition normalized :: "string \<Rightarrow> string" where
  "normalized sql = rstrip_char (CHR '';'') (strip (remove_fences sql))"

definition sanitize_sql :: "string \<Rightarrow> error + string" where
  "sanitize_sql raw =
     (let sql = strip (remove_fences raw);
          sql = rstrip_char (CHR '';'') sql
      in if \<not> prefix ''select'' (lstrip (lower sql))
         then Inl (InvalidQueryKind (''Generated query is not a SELECT statement: '' @ sql))
         else if list_ex (\<lambda>cmd. sublist cmd (lower sql)) forbidden
         then Inl (InvalidQueryKind (''Query contains forbidden operations: '' @ sql))
         else Inr sql)"

section \<open>Collaborators and result sets\<close>

text \<open>
  A result set (a pandas \<^verbatim>\<open>DataFrame\<close>) is kept column by column: the column names in
  order, each with its values, one per row. The scalar type \<open>'v\<close> of the cells is left
  open. \<^verbatim>\<open>data[name]\<close> reads a column, \<^verbatim>\<open>data[name] = values\<close> replaces the column of
  that name or appends a new one, in place.
\<close>

type_synonym 'v dataframe = "(string \<times> 'v list) list"

definition columns :: "'v dataframe \<Rightarrow> string list" where
  "columns data = map fst data"

definition empty :: "'v dataframe \<Rightarrow> bool" where
  "empty data = (case data of [] \<Rightarrow> True | (c, vs) # _ \<Rightarrow> vs = [])"

definition set_column :: "string \<Rightarrow> 'v list \<Rightarrow> 'v dataframe \<Rightarrow> 'v dataframe" where
  "set_column name vs data = AList.update name vs data"

text \<open>\<^verbatim>\<open>data.to_dict(orient='records')\<close>: one record per row, each pairing column names and values.\<close>

definition to_dict :: "'v dataframe \<Rightarrow> (string \<times> 'v) list list" where
  "to_dict data = map (zip (columns data)) (transpose (map snd data))"

text \<open>What a plotting call puts on the current figure.\<close>

datatype 'v chart =
    LinePlot "'v dataframe" string string string
  | BarPlot "'v dataframe" string string string

text \<open>
  The collaborators are parameters of the agent. The two language-model chains
  (\<^verbatim>\<open>chain.run\<close>), the store (\<^verbatim>\<open>pd.read_sql\<close> on a fresh connection) and the matplotlib
  calls act on the world outside the agent: each takes the state \<open>'w\<close> of that world and
  returns the state it leaves, so that a call that was made shows in the state and a call
  that was not made does not. The pandas computations only return a value. Where a call may
  raise, \<open>Inl\<close> carries the exception's message. \<open>savefig\<close> renders the current figure
  (\<open>None\<close> when nothing was plotted on it) to base64 text.
\<close>

record ('v, 'w) env =
  complete_sql :: "string \<Rightarrow> 'w \<Rightarrow> (string + string) \<times> 'w"
  read_sql :: "string \<Rightarrow> 'w \<Rightarrow> (string + 'v dataframe) \<times> 'w"
  complete_answer :: "string \<Rightarrow> 'v dataframe \<Rightarrow> string \<Rightarrow> 'w \<Rightarrow> (string + string) \<times> 'w"
  to_datetime :: "'v list \<Rightarrow> string + 'v list"
  sort_values :: "string \<Rightarrow> 'v dataframe \<Rightarrow> string + 'v dataframe"
  divide :: "'v list \<Rightarrow> 'v list \<Rightarrow> string + 'v list"
  plt_figure :: "'w \<Rightarrow> 'w"
  plot :: "'v chart \<Rightarrow> 'w \<Rightarrow> (string + unit) \<times> 'w"
  savefig :: "'v chart option \<Rightarrow> 'w \<Rightarrow> (string + string) \<times> 'w"
  plt_close :: "'w \<Rightarrow> 'w"

section \<open>The pipeline stages\<close>

definition generate_sql :: "('v, 'w) env \<Rightarrow> string \<Rightarrow> 'w \<Rightarrow> (error + string) \<times> 'w" where
  "generate_sql env question w =
     (case complete_sql env question w of
        (Inl m, w') \<Rightarrow> (Inl (GenerationFailure m), w')
      | (Inr raw_sql, w') \<Rightarrow> (sanitize_sql (strip raw_sql), w'))"

definition execute_query ::
  "('v, 'w) env \<Rightarrow> string \<Rightarrow> 'w \<Rightarrow> (error + 'v dataframe) \<times> 'w" where
  "execute_query env sql w =
     (case read_sql env sql w of
        (Inl m, w') \<Rightarrow>
          (Inl (ExecutionFailure
                  (''SQL execution failed: '' @ m @ [CHR 0x0A] @ ''Query: '' @ sql)), w')
      | (Inr data, w') \<Rightarrow> (Inr data, w'))"

definition generate_answer ::
  "('v, 'w) env \<Rightarrow> string \<Rightarrow> 'v dataframe \<Rightarrow> string \<Rightarrow> 'w \<Rightarrow> (error + string) \<times> 'w" where
  "generate_answer env question data sql w =
     (case complete_answer env question data sql w of
        (Inl m, w') \<Rightarrow> (Inl (GenerationFailure m), w')
      | (Inr answer, w') \<Rightarrow> (Inr answer, w'))"

text \<open>
  The chart rules, lines 109 to 122 of the \<^verbatim>\<open>try\<close> block. The result is \<open>Inl\<close> when a
  statement raised, otherwise what was plotted on the figure (\<open>None\<close> when no rule plotted
  anything). The frame the visualizer is given is the caller's object, and the two column
  assignments write to that object, so the caller's frame as the statements leave it is
  returned as well. \<^verbatim>\<open>data.sort_values\<close> builds a new frame, bound to the local name only.
\<close>

definition plot_chart ::
  "('v, 'w) env \<Rightarrow> 'v dataframe \<Rightarrow> 'w \<Rightarrow> (string + 'v chart option) \<times> 'v dataframe \<times> 'w" where
  "plot_chart env data w =
     (if ''date'' \<in> set (columns data) then
        (case map_of data ''date'' of
           None \<Rightarrow> (Inl ''KeyError'', data, w)
         | Some dates \<Rightarrow>
             (case to_datetime env dates of
                Inl e \<Rightarrow> (Inl e, data, w)
              | Inr parsed \<Rightarrow>
                  (let data1 = set_column ''date'' parsed data in
                   case sort_values env ''date'' data1 of
                     Inl e \<Rightarrow> (Inl e, data1, w)
                   | Inr ordered \<Rightarrow>
                       (if ''total_sales'' \<in> set (columns ordered) then
                          (case plot env (LinePlot ordered ''date'' ''total_sales'' ''Sales Trend'') w of
                             (Inl e, w') \<Rightarrow> (Inl e, data1, w')
                           | (Inr _, w') \<Rightarrow>
                               (Inr (Some (LinePlot ordered ''date'' ''total_sales'' ''Sales Trend'')),
                                data1, w'))
                        else if ''ad_sales'' \<in> set (columns ordered) then
                          (case plot env (LinePlot ordered ''date'' ''ad_sales'' ''Ad Performance'') w of
                             (Inl e, w') \<Rightarrow> (Inl e, data1, w')
                           | (Inr _, w') \<Rightarrow>
                               (Inr (Some (LinePlot ordered ''date'' ''ad_sales'' ''Ad Performance'')),
                                data1, w'))
                        else (Inr None, data1, w)))))
      else if list_all (\<lambda>col. col \<in> set (columns data)) [''item_id'', ''ad_sales'', ''ad_spend''] then
        (case (map_of data ''ad_sales'', map_of data ''ad_spend'') of
           (Some sales, Some spend) \<Rightarrow>
             (case divide env sales spend of
                Inl e \<Rightarrow> (Inl e, data, w)
              | Inr roas \<Rightarrow>
                  (let data1 = set_column ''ROAS'' roas data in
                   case plot env (BarPlot data1 ''item_id'' ''ROAS'' ''Return on Ad Spend'') w of
                     (Inl e, w') \<Rightarrow> (Inl e, data1, w')
                   | (Inr _, w') \<Rightarrow>
                       (Inr (Some (BarPlot data1 ''item_id'' ''ROAS'' ''Return on Ad Spend'')),
                        data1, w')))
         | _ \<Rightarrow> (Inl ''KeyError'', data, w))
      else (Inr None, data, w))"

text \<open>The last three statements of the \<^verbatim>\<open>try\<close> block: save the current figure and encode it.\<close>

definition save_visualization ::
  "('v, 'w) env \<Rightarrow> 'v chart option \<Rightarrow> 'w \<Rightarrow> string option \<times> 'w" where
  "save_visualization env fig w =
     (case savefig env fig w of
        (Inl e, w') \<Rightarrow> (None, w')
      | (Inr png, w') \<Rightarrow> (Some png, w'))"

text \<open>
  \<^verbatim>\<open>generate_visualization\<close> returns the encoded chart, or \<open>None\<close>, next to the caller's
  frame and the world as the call leaves them. An empty frame returns at once. Otherwise a
  figure is opened, the chart rules run and, unless one of them raised, the figure is saved
  whatever the rules did; any exception inside the \<^verbatim>\<open>try\<close> block is caught and leaves
  \<open>None\<close>; the figure is closed on every path. The two calls outside the \<^verbatim>\<open>try\<close> block
  (\<^verbatim>\<open>data.empty\<close>, \<^verbatim>\<open>plt.figure\<close>) are taken not to raise.
\<close>

definition generate_visualization ::
  "('v, 'w) env \<Rightarrow> string \<Rightarrow> 'v dataframe \<Rightarrow> 'w \<Rightarrow> string option \<times> 'v dataframe \<times> 'w" where
  "generate_visualization env question data w =
     (if empty data then (None, data, w)
      else
        (case plot_chart env data (plt_figure env w) of
           (Inl e, data', w') \<Rightarrow> (None, data', plt_close env w')
         | (Inr fig, data', w') \<Rightarrow>
             (case save_visualization env fig w' of
                (viz, w'') \<Rightarrow> (viz, data', plt_close env w''))))"

section \<open>The orchestrator\<close>

definition table_suggestion :: string where
  "table_suggestion =
     ''Try rephrasing to use sales_metrics, ad_metrics, or product_eligibility tables''"

definition column_suggestion :: string where
  "column_suggestion =
     ''Available columns: date, item_id, total_sales, ad_sales, ad_spend, etc.''"

definition phrasing_suggestion :: string where
  "phrasing_suggestion =
     ''Ask about data queries like '' @ [CHR 0x27] @ ''Show me sales for product X'' @ [CHR 0x27]
       @ '' or '' @ [CHR 0x27] @ ''Compare ad performance'' @ [CHR 0x27]"

definition generic_suggestion :: string where
  "generic_suggestion = ''Try being more specific about what data you need''"

definition get_suggestion :: "string \<Rightarrow> string \<Rightarrow> string" where
  "get_suggestion question error =
     (if sublist ''no such table'' (lower error) then table_suggestion
      else if sublist ''no such column'' (lower error) then column_suggestion
      else if sublist ''select'' (lower error) then phrasing_suggestion
      else generic_suggestion)"

text \<open>
  The two dictionaries \<^verbatim>\<open>query\<close> returns. In the failure dictionary \<^verbatim>\<open>sql\<close> is the text
  bound by step 1 when that step returned, \<^verbatim>\<open>None\<close> otherwise.
\<close>

datatype 'v response =
    Success string "(string \<times> 'v) list list" "string option" string
  | Failure string string "string option"

definition failure :: "string \<Rightarrow> error \<Rightarrow> string option \<Rightarrow> 'v response" where
  "failure question e sql = Failure (str e) (get_suggestion question (str e)) sql"

text \<open>
  \<^verbatim>\<open>query\<close> returns its dictionary and the world as the run leaves it: the world is handed
  from each component call to the next, and a component that is not called does not
  touch it.
\<close>

definition query :: "('v, 'w) env \<Rightarrow> string \<Rightarrow> 'w \<Rightarrow> 'v response \<times> 'w" where
  "query env question w =
     (case generate_sql env question w of
        (Inl e, w1) \<Rightarrow> (failure question e None, w1)
      | (Inr sql, w1) \<Rightarrow>
          (case execute_query env sql w1 of
             (Inl e, w2) \<Rightarrow> (failure question e (Some sql), w2)
           | (Inr data, w2) \<Rightarrow>
               (case generate_answer env question data sql w2 of
                  (Inl e, w3) \<Rightarrow> (failure question e (Some sql), w3)
                | (Inr answer, w3) \<Rightarrow>
                    (case generate_visualization env question data w3 of
                       (visualization, data', w4) \<Rightarrow>
                         (Success answer (to_dict data') visualization sql, w4)))))"

section \<open>The suggestion policy as the specification words it\<close>

text \<open>
  The specification describes the fallback as an ordered list of rules, each a text to look
  for in the failure message (case-insensitively) and the template to answer with; the first
  rule that matches wins, and a message no rule matches gets the generic template. This
  second definition follows those words; \<open>get_suggestion\<close> above follows the code.
\<close>

definition suggestion_rules :: "(string \<times> string) list" where
  "suggestion_rules =
     [(''no such table'', table_suggestion),
      (''no such column'', column_suggestion),
      (''select'', phrasing_suggestion)]"

fun first_match :: "(string \<times> string) list \<Rightarrow> string \<Rightarrow> string" where
  "first_match [] message = generic_suggestion"
| "first_match ((pattern, template) # rules) message =
     (if sublist pattern (lower message) then template else first_match rules message)"

definition suggestion_spec :: "string \<Rightarrow> string" where
  "suggestion_spec message = first_match suggestion_rules message"

section \<open>Deterministic collaborators\<close>

text \<open>
  A fixed set of collaborators to run the pipeline on. Their world is the list of the calls
  made so far, each call adding itself at the end. The completion chain for SQL, the store
  and the answer chain always answer with the outcome given for them, and the pandas and
  matplotlib calls succeed. Cells are kept as
  text; the quotient of two cells is written out symbolically.
\<close>

datatype call =
    CompleteSql string
  | ReadSql string
  | CompleteAnswer string string
  | Figure
  | Plot
  | Savefig
  | Close

definition fake_env ::
  "(string + string) \<Rightarrow> (string + string dataframe) \<Rightarrow> (string + string)
     \<Rightarrow> (string, call list) env" where
  "fake_env completion stored answer =
     \<lparr> complete_sql = (\<lambda>question w. (completion, w @ [CompleteSql question])),
       read_sql = (\<lambda>sql w. (stored, w @ [ReadSql sql])),
       complete_answer = (\<lambda>question data sql w. (answer, w @ [CompleteAnswer question sql])),
       to_datetime = (\<lambda>values. Inr values),
       sort_values = (\<lambda>name data. Inr data),
       divide = (\<lambda>xs ys. Inr (map2 (\<lambda>x y. x @ ''/'' @ y) xs ys)),
       plt_figure = (\<lambda>w. w @ [Figure]),
       plot = (\<lambda>chart w. (Inr (), w @ [Plot])),
       savefig = (\<lambda>figure w. (Inr ''png'', w @ [Savefig])),
       plt_close = (\<lambda>w. w @ [Close]) \<rparr>"

section \<open>Facts about the text primitives\<close>

lemma lower_char_fixed:
  "lower_char c = CHR 0x60 \<longleftrightarrow> c = CHR 0x60"
  "lower_char c = CHR '' '' \<longleftrightarrow> c = CHR '' ''"
  "lower_char c = CHR '';'' \<longleftrightarrow> c = CHR '';''"
  by (auto simp: lower_char_def split: option.splits if_splits)

lemma isspace_lower_char: "isspace (lower_char c) \<longleftrightarrow> isspace c"
  by (auto simp: lower_char_def isspace_def split: option.splits if_splits)

lemma lower_append: "lower (a @ b) = lower a @ lower b"
  by (simp add: lower_def)

lemma sublist_lower: "sublist w s \<Longrightarrow> sublist (lower w) (lower s)"
  unfolding sublist_def by (metis lower_append)

lemma prefix_lower: "prefix w s \<Longrightarrow> prefix (lower w) (lower s)"
  by (auto simp: prefix_def lower_append)

text \<open>Removing trailing characters: the shape shared by \<open>rstrip\<close> and \<open>rstrip_char\<close>.\<close>

lemma rtrim_prefix: "prefix (rev (dropWhile P (rev s))) s"
proof -
  have "rev s = takeWhile P (rev s) @ dropWhile P (rev s)" by simp
  then have "s = rev (dropWhile P (rev s)) @ rev (takeWhile P (rev s))"
    by (metis rev_append rev_rev_ident)
  then show ?thesis by (metis prefixI)
qed

lemma rtrim_last:
  "rev (dropWhile P (rev s)) \<noteq> [] \<Longrightarrow> \<not> P (last (rev (dropWhile P (rev s))))"
  by (simp add: last_rev hd_dropWhile)

lemma rtrim_id: "s = [] \<or> \<not> P (last s) \<Longrightarrow> rev (dropWhile P (rev s)) = s"
  by (cases s rule: rev_cases) auto

lemma rtrim_keep:
  assumes "a \<noteq> []" and "\<not> P (last a)"
  shows "prefix a (rev (dropWhile P (rev (a @ b))))"
proof (cases "\<forall>x\<in>set b. P x")
  case True
  then have "dropWhile P (rev b @ rev a) = dropWhile P (rev a)"
    by (simp add: dropWhile_append)
  with assms show ?thesis by (simp add: rtrim_id)
next
  case False
  then have "dropWhile P (rev b @ rev a) = dropWhile P (rev b) @ rev a"
    by (auto simp: dropWhile_append)
  then show ?thesis by simp
qed

lemma rstrip_char_decomp: "\<exists>n. s = rstrip_char ch s @ replicate n ch"
proof -
  have "rev s = takeWhile (\<lambda>c. c = ch) (rev s) @ dropWhile (\<lambda>c. c = ch) (rev s)" by simp
  then have "s = rstrip_char ch s @ rev (takeWhile (\<lambda>c. c = ch) (rev s))"
    unfolding rstrip_char_def by (metis rev_append rev_rev_ident)
  moreover have "\<forall>x\<in>set (rev (takeWhile (\<lambda>c. c = ch) (rev s))). x = ch"
    by (auto dest: set_takeWhileD)
  then have "rev (takeWhile (\<lambda>c. c = ch) (rev s))
      = replicate (length (rev (takeWhile (\<lambda>c. c = ch) (rev s)))) ch"
    by (metis replicate_length_same)
  ultimately show ?thesis by metis
qed

lemma rstrip_char_no_suffix: "\<not> suffix [ch] (rstrip_char ch s)"
proof
  assume "suffix [ch] (rstrip_char ch s)"
  then have "rstrip_char ch s \<noteq> []" and "last (rstrip_char ch s) = ch"
    by (auto simp: suffix_def)
  with rtrim_last[of "\<lambda>c. c = ch" s] show False by (simp add: rstrip_char_def)
qed

lemma lstrip_id: "s = [] \<or> \<not> isspace (hd s) \<Longrightarrow> lstrip s = s"
  by (cases s) (auto simp: lstrip_def)

lemma lstrip_head: "lstrip s \<noteq> [] \<Longrightarrow> \<not> isspace (hd (lstrip s))"
  by (simp add: lstrip_def hd_dropWhile)

lemma strip_sublist: "sublist (strip s) s"
proof -
  have "prefix (strip s) (lstrip s)"
    by (simp add: strip_def rstrip_def rtrim_prefix)
  moreover have "suffix (lstrip s) s"
    by (simp add: lstrip_def suffix_dropWhile)
  ultimately show ?thesis
    by (metis prefix_imp_sublist suffix_imp_sublist sublist_order.order_trans)
qed

lemma strip_head: "strip s \<noteq> [] \<Longrightarrow> \<not> isspace (hd (strip s))"
proof -
  assume ne: "strip s \<noteq> []"
  have p: "prefix (strip s) (lstrip s)"
    by (simp add: strip_def rstrip_def rtrim_prefix)
  with ne have "lstrip s \<noteq> []" and "hd (strip s) = hd (lstrip s)"
    by (auto simp: prefix_def)
  then show ?thesis by (simp add: lstrip_head)
qed

text \<open>A piece of text that starts and ends with a visible character survives \<open>strip\<close>.\<close>

lemma strip_keeps:
  assumes "sublist x s" and "x \<noteq> []" and "\<not> isspace (hd x)" and "\<not> isspace (last x)"
  shows "sublist x (strip s)"
proof -
  from assms(1) obtain p r where s: "s = p @ x @ r" by (auto simp: sublist_def)
  obtain p' where l: "lstrip s = p' @ x @ r"
  proof (cases "\<forall>c\<in>set p. isspace c")
    case True
    with assms(2,3) have "lstrip s = [] @ x @ r"
      by (cases x) (auto simp: s lstrip_def dropWhile_append)
    then show ?thesis by (rule that)
  next
    case False
    then have "lstrip s = dropWhile isspace p @ x @ r"
      by (auto simp: s lstrip_def dropWhile_append)
    then show ?thesis by (rule that)
  qed
  have "p' @ x \<noteq> []" and "\<not> isspace (last (p' @ x))"
    using assms(2,4) by auto
  then have "prefix (p' @ x) (rev (dropWhile isspace (rev ((p' @ x) @ r))))"
    by (rule rtrim_keep)
  then have "prefix (p' @ x) (strip s)"
    by (simp add: strip_def rstrip_def l)
  then show ?thesis
    by (metis prefix_imp_sublist sublist_appendI sublist_order.order_trans append_Nil2 sublist_append_leftI)
qed

text \<open>Facts about fence removal.\<close>

lemma remove_fences_Cons:
  "x \<noteq> CHR 0x60 \<Longrightarrow> remove_fences (x # t) = x # remove_fences t"
  by (cases t rule: remove_fences.cases) auto

lemma remove_fences_head:
  "prefix [CHR 0x60] (remove_fences t) \<Longrightarrow> prefix [CHR 0x60] t"
  by (cases t rule: remove_fences.cases) (auto split: if_splits)

lemma remove_fences_head2:
  "prefix [CHR 0x60, CHR 0x60] (remove_fences t) \<Longrightarrow> prefix [CHR 0x60, CHR 0x60] t"
proof (cases t rule: remove_fences.cases)
  case (1 a b c rest)
  assume p: "prefix [CHR 0x60, CHR 0x60] (remove_fences t)"
  show ?thesis
  proof (cases "a = CHR 0x60 \<and> b = CHR 0x60 \<and> c = CHR 0x60")
    case True
    with 1 show ?thesis by simp
  next
    case False
    with 1 p have "a = CHR 0x60" and "prefix [CHR 0x60] (remove_fences (b # c # rest))"
      by auto
    from remove_fences_head[OF this(2)] \<open>a = CHR 0x60\<close> 1 show ?thesis by simp
  qed
qed auto

lemma remove_fences_no_fence: "\<not> sublist ''```'' (remove_fences s)"
proof (induction s rule: remove_fences.induct)
  case (1 a b c rest)
  show ?case
  proof (cases "a = CHR 0x60 \<and> b = CHR 0x60 \<and> c = CHR 0x60")
    case True
    with 1 show ?thesis by simp
  next
    case False
    then have eq: "remove_fences (a # b # c # rest) = a # remove_fences (b # c # rest)"
      by (simp only: remove_fences.simps if_False)
    have "\<not> prefix ''```'' (a # remove_fences (b # c # rest))"
    proof
      assume "prefix ''```'' (a # remove_fences (b # c # rest))"
      then have "a = CHR 0x60" and "prefix [CHR 0x60, CHR 0x60] (remove_fences (b # c # rest))"
        by auto
      from remove_fences_head2[OF this(2)] this(1) False show False by auto
    qed
    moreover have "\<not> sublist ''```'' (remove_fences (b # c # rest))"
      using 1 False by blast
    ultimately show ?thesis
      unfolding eq by (simp only: sublist_Cons_right) simp
  qed
qed (auto simp: sublist_Cons_right)

lemma remove_fences_id: "\<not> sublist ''```'' s \<Longrightarrow> remove_fences s = s"
proof (induction s rule: remove_fences.induct)
  case (1 a b c rest)
  then show ?case by (auto simp: sublist_Cons_right)
qed auto

section \<open>Facts about the validator\<close>

lemma sanitize_sql_normalized:
  "sanitize_sql raw =
     (if \<not> prefix ''select'' (lstrip (lower (normalized raw)))
      then Inl (InvalidQueryKind (''Generated query is not a SELECT statement: '' @ normalized raw))
      else if list_ex (\<lambda>cmd. sublist cmd (lower (normalized raw))) forbidden
      then Inl (InvalidQueryKind (''Query contains forbidden operations: '' @ normalized raw))
      else Inr (normalized raw))"
  by (simp add: sanitize_sql_def normalized_def Let_def)

lemma sanitize_sql_Inr:
  "sanitize_sql raw = Inr s \<longleftrightarrow>
     s = normalized raw \<and> prefix ''select'' (lstrip (lower s))
       \<and> \<not> list_ex (\<lambda>cmd. sublist cmd (lower s)) forbidden"
  by (auto simp: sanitize_sql_normalized)

lemma sanitize_sql_Inl: "sanitize_sql raw = Inl e \<Longrightarrow> \<exists>m. e = InvalidQueryKind m"
  by (auto simp: sanitize_sql_normalized split: if_splits)

lemma normalized_sublist: "sublist (normalized raw) (remove_fences raw)"
proof -
  have "prefix (normalized raw) (strip (remove_fences raw))"
    by (simp add: normalized_def rstrip_char_def rtrim_prefix)
  then show ?thesis
    by (metis prefix_imp_sublist strip_sublist sublist_order.order_trans)
qed

lemma normalized_no_fence: "\<not> sublist ''```'' (normalized raw)"
  by (metis normalized_sublist remove_fences_no_fence sublist_order.order_trans)

lemma normalized_head: "normalized raw \<noteq> [] \<Longrightarrow> \<not> isspace (hd (normalized raw))"
proof -
  assume ne: "normalized raw \<noteq> []"
  have "prefix (normalized raw) (strip (remove_fences raw))"
    by (simp add: normalized_def rstrip_char_def rtrim_prefix)
  with ne have "strip (remove_fences raw) \<noteq> []"
    and "hd (normalized raw) = hd (strip (remove_fences raw))"
    by (auto simp: prefix_def)
  then show ?thesis by (simp add: strip_head)
qed

lemma prefix_map_split: "prefix p (map f s) \<Longrightarrow> \<exists>a b. s = a @ b \<and> p = map f a"
  by (metis append_eq_map_conv prefix_def)

text \<open>A visible start of the text, in any case, is still there after trailing blanks and
  semicolons are cut.\<close>

lemma start_kept:
  assumes "prefix p (lower s)" and "p \<noteq> []"
    and "\<not> isspace (last p)" and "last p \<noteq> CHR '';''"
  shows "prefix p (lower (rstrip_char (CHR '';'') (rstrip s)))"
proof -
  from assms(1) obtain a b where s: "s = a @ b" and a: "p = lower a"
    unfolding lower_def by (blast dest: prefix_map_split)
  from a assms(2) have ne: "a \<noteq> []" by (auto simp: lower_def)
  then have t: "last p = lower_char (last a)"
    by (simp add: a lower_def last_map)
  from t assms(3) have sp: "\<not> isspace (last a)"
    by (simp add: isspace_lower_char)
  from t assms(4) have sc: "\<not> last a = CHR '';''"
    by (auto simp: lower_char_fixed)
  from ne sp have "prefix a (rev (dropWhile isspace (rev (a @ b))))"
    by (rule rtrim_keep)
  then obtain b' where b': "rstrip s = a @ b'"
    by (auto simp: prefix_def rstrip_def s)
  from ne sc have "prefix a (rev (dropWhile (\<lambda>c. c = CHR '';'') (rev (a @ b'))))"
    by (rule rtrim_keep)
  then have "prefix a (rstrip_char (CHR '';'') (rstrip s))"
    by (simp add: rstrip_char_def b')
  from prefix_lower[OF this] a show ?thesis by simp
qed

lemma select_prefix_kept:
  "prefix ''select'' (lower s) \<Longrightarrow>
     prefix ''select'' (lower (rstrip_char (CHR '';'') (rstrip s)))"
  by (rule start_kept) (simp_all add: isspace_def)

section \<open>Claims about the validator\<close>

text \<open>
  C1, as the claim states it, fails in its part (d): the validator looks for each keyword
  followed by one space, so a validated text may still contain a bare keyword. Here the
  validated text contains \<^verbatim>\<open>create\<close>.
\<close>

theorem C1_bare_keyword_counterexample:
  "sanitize_sql ''select created_at from t'' = Inr ''select created_at from t''
   \<and> sublist ''create'' (lower ''select created_at from t'')"
  by code_simp

text \<open>
  C1, amended: whenever \<open>sanitize_sql\<close> succeeds, the returned text (a) begins with
  \<^verbatim>\<open>select\<close> in any case, leading whitespace ignored, (b) contains no code-fence marker,
  (c) does not end with a semicolon, and (d) contains none of the seven mutating keywords
  followed by a space, in any case.
\<close>

theorem C1_sanitize_sql_guarantees:
  assumes "sanitize_sql raw = Inr s"
  shows "prefix ''select'' (lstrip (lower s))
    \<and> \<not> sublist ''```'' s
    \<and> \<not> suffix '';'' s
    \<and> (\<forall>kw \<in> set [''insert'', ''update'', ''delete'', ''drop'', ''alter'', ''truncate'', ''create''].
          \<not> sublist (kw @ '' '') (lower s))"
proof -
  from assms have s: "s = normalized raw" and sel: "prefix ''select'' (lstrip (lower s))"
    and nf: "\<not> list_ex (\<lambda>cmd. sublist cmd (lower s)) forbidden"
    unfolding sanitize_sql_Inr by blast+
  have b: "\<not> sublist ''```'' s"
    unfolding s by (rule normalized_no_fence)
  have c: "\<not> suffix '';'' s"
    unfolding s normalized_def by (rule rstrip_char_no_suffix)
  from nf have d: "\<forall>kw \<in> set [''insert'', ''update'', ''delete'', ''drop'', ''alter'', ''truncate'', ''create''].
          \<not> sublist (kw @ '' '') (lower s)"
    by (simp add: forbidden_def)
  from sel b c d show ?thesis by blast
qed

theorem C1_sanitize_sql_guarantees_witness:
  "sanitize_sql ''```sql select 1;```'' = Inr ''select 1''
   \<and> prefix ''select'' (lstrip (lower ''select 1''))
   \<and> \<not> sublist ''```'' ''select 1''
   \<and> \<not> suffix '';'' ''select 1''
   \<and> \<not> sublist ''insert '' (lower ''select 1'')
   \<and> \<not> sublist ''update '' (lower ''select 1'')
   \<and> \<not> sublist ''delete '' (lower ''select 1'')
   \<and> \<not> sublist ''drop '' (lower ''select 1'')
   \<and> \<not> sublist ''alter '' (lower ''select 1'')
   \<and> \<not> sublist ''truncate '' (lower ''select 1'')
   \<and> \<not> sublist ''create '' (lower ''select 1'')"
proof -
  have h: "sanitize_sql ''```sql select 1;```'' = Inr ''select 1''"
    by code_simp
  from h C1_sanitize_sql_guarantees[OF h] show ?thesis by simp
qed

text \<open>
  C5, as the claim states it, fails: \<^verbatim>\<open>rstrip(';')\<close> removes every trailing semicolon, so an
  input ending in two semicolons keeps none.
\<close>

theorem C5_two_semicolons_counterexample:
  "strip (remove_fences ''select 1;;'') = ''select 1;;''
   \<and> sanitize_sql ''select 1;;'' = Inr ''select 1''"
  by code_simp

text \<open>
  C5, amended: whenever \<open>sanitize_sql\<close> succeeds, the returned text is the fence-stripped,
  trimmed input with all of its trailing semicolons removed: the trimmed input is the
  returned text followed by semicolons only, and the returned text ends with none.
\<close>

theorem C5_sanitize_sql_normal_form:
  assumes "sanitize_sql raw = Inr s"
  shows "(\<exists>n. strip (remove_fences raw) = s @ replicate n (CHR '';'')) \<and> \<not> suffix '';'' s"
proof -
  from assms have s: "s = rstrip_char (CHR '';'') (strip (remove_fences raw))"
    by (simp add: sanitize_sql_Inr normalized_def)
  show ?thesis
    unfolding s using rstrip_char_decomp rstrip_char_no_suffix by blast
qed

theorem C5_sanitize_sql_normal_form_witness:
  "sanitize_sql ''select 1;;'' = Inr ''select 1''
   \<and> (\<exists>n. strip (remove_fences ''select 1;;'') = ''select 1'' @ replicate n (CHR '';''))
   \<and> \<not> suffix '';'' ''select 1''"
proof -
  have h: "sanitize_sql ''select 1;;'' = Inr ''select 1''"
    by code_simp
  from h C5_sanitize_sql_normal_form[OF h] show ?thesis by blast
qed

text \<open>
  C9 at the input \<^verbatim>\<open>select 1 ;\<close>: the semicolon is cut after the whitespace was trimmed,
  so the validated text ends in the blank that stood before the semicolon, and validating
  that text again trims the blank: the second validation does not return its input.
\<close>

theorem C9_revalidation_changes_text:
  "sanitize_sql ''select 1 ;'' = Inr ''select 1 ''
   \<and> sanitize_sql ''select 1 '' = Inr ''select 1''"
  by code_simp

text \<open>
  What a second validation does in general: it succeeds, and returns the validated text
  with its trailing whitespace and then its trailing semicolons removed; that is the
  validated text itself when it does not end in whitespace.
\<close>

lemma sanitize_sql_again:
  assumes "sanitize_sql raw = Inr s"
  shows "sanitize_sql s = Inr (rstrip_char (CHR '';'') (rstrip s))
    \<and> (\<not> isspace (last s) \<longrightarrow> sanitize_sql s = Inr s)"
proof -
  let ?s2 = "rstrip_char (CHR '';'') (rstrip s)"
  from assms have s: "s = normalized raw" and sel: "prefix ''select'' (lstrip (lower s))"
    and nf: "\<not> list_ex (\<lambda>cmd. sublist cmd (lower s)) forbidden"
    unfolding sanitize_sql_Inr by blast+
  from sel have ne: "s \<noteq> []" by (auto simp: lower_def lstrip_def)
  have fence: "remove_fences s = s"
    unfolding s by (rule remove_fences_id) (rule normalized_no_fence)
  from ne have hd: "\<not> isspace (hd s)"
    unfolding s by (rule normalized_head)
  then have l: "lstrip s = s" by (simp add: lstrip_id)
  have n2: "normalized s = ?s2"
    by (simp add: normalized_def fence strip_def l)
  from ne hd have "\<not> isspace (hd (lower s))"
    by (simp add: lower_def hd_map isspace_lower_char)
  then have "lstrip (lower s) = lower s" by (simp add: lstrip_id)
  with sel have sel': "prefix ''select'' (lower s)" by simp
  then have p2: "prefix ''select'' (lower ?s2)" by (rule select_prefix_kept)
  then have "lstrip (lower ?s2) = lower ?s2"
    by (intro lstrip_id) (auto simp: prefix_def isspace_def)
  with p2 have sel2: "prefix ''select'' (lstrip (lower ?s2))" by simp
  have "prefix ?s2 s"
    unfolding rstrip_char_def rstrip_def
    by (meson rtrim_prefix prefix_order.order_trans)
  then have sub: "sublist (lower ?s2) (lower s)"
    by (intro sublist_lower prefix_imp_sublist)
  have nf2: "\<not> list_ex (\<lambda>cmd. sublist cmd (lower ?s2)) forbidden"
  proof
    assume "list_ex (\<lambda>cmd. sublist cmd (lower ?s2)) forbidden"
    then obtain cmd where "cmd \<in> set forbidden" and "sublist cmd (lower ?s2)"
      by (auto simp: list_ex_iff)
    with sub have "cmd \<in> set forbidden" and "sublist cmd (lower s)"
      by (auto intro: sublist_order.order_trans)
    with nf show False by (auto simp: list_ex_iff)
  qed
  have first: "sanitize_sql s = Inr ?s2"
    using n2 sel2 nf2 by (simp add: sanitize_sql_Inr)
  have "\<not> isspace (last s) \<Longrightarrow> ?s2 = s"
  proof -
    assume "\<not> isspace (last s)"
    then have r: "rstrip s = s" by (simp add: rstrip_def rtrim_id)
    have "\<not> suffix '';'' s"
      unfolding s normalized_def by (rule rstrip_char_no_suffix)
    with ne have "last s \<noteq> CHR '';''"
      by (metis append_butlast_last_id suffixI)
    then show "?s2 = s" by (simp add: r rstrip_char_def rtrim_id)
  qed
  with first show ?thesis by simp
qed

section \<open>Forbidden keywords and normalization\<close>

lemma remove_fences_visible:
  "CHR 0x60 \<notin> set w \<Longrightarrow> remove_fences (w @ r) = w @ remove_fences r"
  by (induction w) (auto simp: remove_fences_Cons)

lemma lower_sql_length: "lower t = ''sql'' \<Longrightarrow> length t = 3"
  by (auto simp: lower_def)

lemma lower_take_sql:
  assumes "lower_char x \<notin> {CHR ''s'', CHR ''q'', CHR ''l''}"
  shows "lower (take 3 (rest @ x # t)) = ''sql'' \<longleftrightarrow> lower (take 3 rest) = ''sql''"
proof (cases "3 \<le> length rest")
  case True
  then show ?thesis by simp
next
  case False
  then have short: "length rest < 3" by simp
  then have "lower (take 3 rest) \<noteq> ''sql''"
    using lower_sql_length[of "take 3 rest"] by auto
  moreover have "lower (take 3 (rest @ x # t)) \<noteq> ''sql''"
  proof
    assume eq: "lower (take 3 (rest @ x # t)) = ''sql''"
    have n: "length rest < length (take 3 (rest @ x # t))" using short by simp
    have "take 3 (rest @ x # t) ! length rest = x"
      using short by (simp add: nth_append)
    with n have "lower (take 3 (rest @ x # t)) ! length rest = lower_char x"
      unfolding lower_def by (metis nth_map)
    with eq have "''sql'' ! length rest = lower_char x" by simp
    moreover from short have "length rest = 0 \<or> length rest = 1 \<or> length rest = 2" by arith
    ultimately show False using assms by auto
  qed
  ultimately show ?thesis by simp
qed

lemma remove_fences_short1:
  assumes "x \<noteq> CHR 0x60"
  shows "remove_fences (v # x # t) = v # remove_fences (x # t)"
proof (cases t)
  case Nil
  then show ?thesis by simp
next
  case (Cons y t')
  with assms have "remove_fences (v # x # y # t') = v # remove_fences (x # y # t')"
    by (simp only: remove_fences.simps) simp
  with Cons show ?thesis by simp
qed

lemma remove_fences_short2:
  assumes "x \<noteq> CHR 0x60"
  shows "remove_fences (v # u # x # t) = v # u # remove_fences (x # t)"
proof -
  from assms have "remove_fences (v # u # x # t) = v # remove_fences (u # x # t)"
    by (simp only: remove_fences.simps) simp
  with remove_fences_short1[OF assms] show ?thesis by simp
qed

text \<open>
  Fence removal works on the two sides of a character independently, when that character
  is neither a backtick nor one of the letters of \<^verbatim>\<open>sql\<close>: no match can reach across it.
\<close>

lemma remove_fences_split:
  assumes "x \<noteq> CHR 0x60" and "lower_char x \<notin> {CHR ''s'', CHR ''q'', CHR ''l''}"
  shows "remove_fences (p @ x # t) = remove_fences p @ remove_fences (x # t)"
proof (induction p rule: remove_fences.induct)
  case (1 a b c rest)
  show ?case
  proof (cases "a = CHR 0x60 \<and> b = CHR 0x60 \<and> c = CHR 0x60")
    case True
    show ?thesis
    proof (cases "lower (take 3 rest) = ''sql''")
      case sql: True
      then have len: "3 \<le> length rest"
        using lower_sql_length[of "take 3 rest"] by auto
      from sql have "lower (take 3 (rest @ x # t)) = ''sql''"
        using lower_take_sql[OF assms(2), of rest t] by blast
      with True sql len 1(1) show ?thesis by simp
    next
      case nosql: False
      then have "lower (take 3 (rest @ x # t)) \<noteq> ''sql''"
        using lower_take_sql[OF assms(2), of rest t] by blast
      with True nosql 1(2) show ?thesis by simp
    qed
  next
    case False
    then have "remove_fences (a # b # c # rest) = a # remove_fences (b # c # rest)"
      and "remove_fences (a # b # c # (rest @ x # t)) = a # remove_fences (b # c # (rest @ x # t))"
      by (simp_all only: remove_fences.simps if_False)
    with 1(3)[OF False] show ?thesis by simp
  qed
qed (simp_all del: remove_fences.simps(1) add: remove_fences_short1 remove_fences_short2 assms(1))

text \<open>A keyword with its space, followed by a visible character, is still there after
  normalization.\<close>

lemma keyword_survives:
  assumes sub: "sublist (w @ [c]) raw" and ne: "w \<noteq> []"
    and tick: "CHR 0x60 \<notin> set w" and first: "lower_char (hd w) \<notin> {CHR ''s'', CHR ''q'', CHR ''l''}"
    and vis: "\<not> isspace (hd w)" and sp: "last w = CHR '' ''"
    and c: "\<not> isspace c" "c \<noteq> CHR 0x60"
  shows "sublist w (normalized raw)"
proof -
  from sub obtain p r where raw: "raw = p @ (w @ [c]) @ r" by (auto simp: sublist_def)
  from ne obtain x w' where w: "w = x # w'" by (cases w) auto
  from tick w have x: "x \<noteq> CHR 0x60" by auto
  from first w have x': "lower_char x \<notin> {CHR ''s'', CHR ''q'', CHR ''l''}" by simp
  have "remove_fences raw = remove_fences p @ remove_fences (x # (w' @ c # r))"
    unfolding raw w using remove_fences_split[OF x x', of p "w' @ c # r"] by simp
  also have "x # (w' @ c # r) = (w @ [c]) @ r" by (simp add: w)
  also have "remove_fences ((w @ [c]) @ r) = (w @ [c]) @ remove_fences r"
    using tick c(2) by (intro remove_fences_visible) auto
  finally have "remove_fences raw = remove_fences p @ (w @ [c]) @ remove_fences r" .
  then have "sublist (w @ [c]) (remove_fences raw)"
    unfolding sublist_def by blast
  moreover have "w @ [c] \<noteq> []" "\<not> isspace (hd (w @ [c]))" "\<not> isspace (last (w @ [c]))"
    using ne vis c(1) by auto
  ultimately have "sublist (w @ [c]) (strip (remove_fences raw))"
    by (rule strip_keeps)
  then obtain p' r' where st: "strip (remove_fences raw) = (p' @ w) @ (c # r')"
    by (auto simp: sublist_def)
  have "p' @ w \<noteq> []" and "\<not> last (p' @ w) = CHR '';''"
    using ne sp by auto
  then have "prefix (p' @ w) (rev (dropWhile (\<lambda>c. c = CHR '';'') (rev ((p' @ w) @ (c # r')))))"
    by (rule rtrim_keep)
  then have "prefix (p' @ w) (normalized raw)"
    by (simp only: normalized_def rstrip_char_def st)
  then obtain z where "normalized raw = p' @ w @ z" by (auto simp: prefix_def)
  then show ?thesis by (auto simp: sublist_def)
qed

lemma sublist_lower_obtain:
  assumes "sublist x (lower raw)"
  shows "\<exists>u. sublist u raw \<and> lower u = x"
proof -
  from assms obtain p r where "lower raw = p @ x @ r" by (auto simp: sublist_def)
  then obtain p' t where "raw = p' @ t" and "x @ r = map lower_char t"
    unfolding lower_def by (metis map_eq_append_conv)
  moreover then obtain u r' where "t = u @ r'" and "x = map lower_char u"
    by (metis append_eq_map_conv)
  ultimately show ?thesis by (auto simp: lower_def sublist_def)
qed

lemma survives_strip:
  assumes "sublist x (lower raw)" and "x \<noteq> []"
    and "\<not> isspace (hd x)" and "\<not> isspace (last x)"
  shows "sublist x (lower (strip raw))"
proof -
  from sublist_lower_obtain[OF assms(1)] obtain u where u: "sublist u raw" "lower u = x"
    by blast
  from u(2) assms(2) have ne: "u \<noteq> []" by (auto simp: lower_def)
  with u(2) have "hd x = lower_char (hd u)" and "last x = lower_char (last u)"
    by (auto simp: lower_def hd_map last_map)
  with assms(3,4) have "\<not> isspace (hd u)" and "\<not> isspace (last u)"
    by (simp_all add: isspace_lower_char)
  with u(1) ne have "sublist u (strip raw)" by (intro strip_keeps)
  from sublist_lower[OF this] u(2) show ?thesis by simp
qed

lemma forbidden_shape:
  assumes "kw \<in> set forbidden"
  shows "kw \<noteq> []" and "CHR 0x60 \<notin> set kw"
    and "hd kw \<notin> {CHR ''s'', CHR ''q'', CHR ''l''}"
    and "\<not> isspace (hd kw)" and "last kw = CHR '' ''"
  using assms by (auto simp: forbidden_def isspace_def)

lemma forbidden_survives:
  assumes kw: "kw \<in> set forbidden" and sub: "sublist (kw @ [c]) (lower raw)"
    and c: "\<not> isspace c" "c \<noteq> CHR 0x60"
  shows "sublist kw (lower (normalized raw))"
proof -
  from sublist_lower_obtain[OF sub] obtain u where u: "sublist u raw" "lower u = kw @ [c]"
    by blast
  from u(2) obtain w c' where uw: "u = w @ [c']" and w: "lower w = kw" and c': "lower_char c' = c"
    unfolding lower_def by (auto simp: map_eq_append_conv)
  note shape = forbidden_shape[OF kw]
  from w shape(1) have ne: "w \<noteq> []" by (auto simp: lower_def)
  with w have h: "hd kw = lower_char (hd w)" and l: "last kw = lower_char (last w)"
    by (auto simp: lower_def hd_map last_map)
  have tick: "CHR 0x60 \<notin> set w"
  proof
    assume "CHR 0x60 \<in> set w"
    then have "lower_char (CHR 0x60) \<in> set (lower w)" by (auto simp: lower_def)
    moreover have "lower_char (CHR 0x60) = CHR 0x60" by (simp add: lower_char_fixed)
    ultimately show False using shape(2) w by simp
  qed
  have first: "lower_char (hd w) \<notin> {CHR ''s'', CHR ''q'', CHR ''l''}"
    using shape(3) h by simp
  have vis: "\<not> isspace (hd w)"
    using shape(4) h by (simp add: isspace_lower_char)
  have sp: "last w = CHR '' ''"
    using shape(5) l by (simp add: lower_char_fixed)
  have cv: "\<not> isspace c'" "c' \<noteq> CHR 0x60"
    using c c' by (auto simp: isspace_lower_char lower_char_fixed)
  from u(1) have "sublist (w @ [c']) raw" by (simp add: uw)
  from keyword_survives[OF this ne tick first vis sp cv] have "sublist w (normalized raw)" .
  from sublist_lower[OF this] w show ?thesis by simp
qed

lemma forbidden_rejected:
  assumes "kw \<in> set forbidden" and "sublist kw (lower (normalized raw))"
  shows "\<exists>m. sanitize_sql raw = Inl (InvalidQueryKind m)"
proof -
  from assms have "list_ex (\<lambda>cmd. sublist cmd (lower (normalized raw))) forbidden"
    by (auto simp: list_ex_iff)
  then show ?thesis by (simp add: sanitize_sql_normalized)
qed

text \<open>
  C4, as the claim states it, fails twice. The validator looks for a keyword followed by
  the space character, so a keyword followed by a tab passes; and it looks in the
  normalized text, so a keyword whose space ends the input passes once that space is
  trimmed.
\<close>

theorem C4_keyword_then_whitespace_counterexample:
  "isspace (CHR 0x09)
   \<and> sublist (''drop'' @ [CHR 0x09]) (lower (''select 1; DROP'' @ [CHR 0x09] @ ''table t''))
   \<and> sanitize_sql (''select 1; DROP'' @ [CHR 0x09] @ ''table t'')
       = Inr (''select 1; DROP'' @ [CHR 0x09] @ ''table t'')
   \<and> isspace (CHR '' '')
   \<and> sublist ''drop '' (lower ''select 1 from drop '')
   \<and> sanitize_sql ''select 1 from drop '' = Inr ''select 1 from drop''"
  by code_simp

text \<open>
  C4, amended: validation fails with \<open>InvalidQueryKind\<close> for every input whose normalized
  text contains, in any case, one of the seven keywords followed by a space; in
  particular for every input that contains, in any case, one of the seven keywords followed
  by a space and then by a character that is neither whitespace nor a backtick. This holds
  whether or not the normalized text starts with \<^verbatim>\<open>select\<close>.
\<close>

theorem C4_forbidden_keyword_rejected:
  assumes "kw \<in> set [''insert'', ''update'', ''delete'', ''drop'', ''alter'', ''truncate'', ''create'']"
  shows "(sublist (kw @ '' '') (lower (normalized raw))
            \<longrightarrow> (\<exists>m. sanitize_sql raw = Inl (InvalidQueryKind m)))
       \<and> (sublist (kw @ '' '' @ [c]) (lower raw) \<and> \<not> isspace c \<and> c \<noteq> CHR 0x60
            \<longrightarrow> (\<exists>m. sanitize_sql raw = Inl (InvalidQueryKind m)))"
proof -
  from assms have kw: "kw @ '' '' \<in> set forbidden"
    by (auto simp: forbidden_def)
  have one: "sublist (kw @ '' '') (lower (normalized raw))
      \<Longrightarrow> \<exists>m. sanitize_sql raw = Inl (InvalidQueryKind m)"
    using kw by (rule forbidden_rejected)
  have two: "\<exists>m. sanitize_sql raw = Inl (InvalidQueryKind m)"
    if "sublist (kw @ '' '' @ [c]) (lower raw)" and "\<not> isspace c" and "c \<noteq> CHR 0x60"
  proof -
    from that(1) have "sublist ((kw @ '' '') @ [c]) (lower raw)" by simp
    from forbidden_survives[OF kw this that(2,3)] show ?thesis by (rule one)
  qed
  from one two show ?thesis by blast
qed

theorem C4_forbidden_keyword_rejected_witness:
  "sublist (''drop'' @ '' '') (lower (normalized ''SELECT 1; Drop table t;''))
   \<and> sublist (''drop'' @ '' '' @ [CHR ''t'']) (lower ''SELECT 1; Drop table t;'')
   \<and> \<not> isspace (CHR ''t'') \<and> CHR ''t'' \<noteq> CHR 0x60
   \<and> (\<exists>m. sanitize_sql ''SELECT 1; Drop table t;'' = Inl (InvalidQueryKind m))"
proof -
  have k: "''drop'' \<in> set [''insert'', ''update'', ''delete'', ''drop'', ''alter'', ''truncate'', ''create'']"
    by simp
  have h1: "sublist (''drop'' @ '' '') (lower (normalized ''SELECT 1; Drop table t;''))"
    by code_simp
  have h2: "sublist (''drop'' @ '' '' @ [CHR ''t'']) (lower ''SELECT 1; Drop table t;'')"
    by code_simp
  have h3: "\<not> isspace (CHR ''t'')" "CHR ''t'' \<noteq> CHR 0x60"
    by (simp_all add: isspace_def)
  from C4_forbidden_keyword_rejected[OF k, of "''SELECT 1; Drop table t;''" "CHR ''t''"] h1
  have "\<exists>m. sanitize_sql ''SELECT 1; Drop table t;'' = Inl (InvalidQueryKind m)"
    by blast
  with h1 h2 h3 show ?thesis by blast
qed

section \<open>Claims about the orchestrator\<close>

lemma query_generation_fails:
  "generate_sql env q w = (Inl e, w1) \<Longrightarrow>
     query env q w = (Failure (str e) (get_suggestion q (str e)) None, w1)"
  by (simp add: query_def failure_def)

lemma query_execution_fails:
  "generate_sql env q w = (Inr sql, w1) \<Longrightarrow> execute_query env sql w1 = (Inl e, w2) \<Longrightarrow>
     query env q w = (Failure (str e) (get_suggestion q (str e)) (Some sql), w2)"
  by (simp add: query_def failure_def)

lemma query_answer_fails:
  "generate_sql env q w = (Inr sql, w1) \<Longrightarrow> execute_query env sql w1 = (Inr data, w2) \<Longrightarrow>
   generate_answer env q data sql w2 = (Inl e, w3) \<Longrightarrow>
     query env q w = (Failure (str e) (get_suggestion q (str e)) (Some sql), w3)"
  by (simp add: query_def failure_def)

lemma query_succeeds:
  "generate_sql env q w = (Inr sql, w1) \<Longrightarrow> execute_query env sql w1 = (Inr data, w2) \<Longrightarrow>
   generate_answer env q data sql w2 = (Inr answer, w3) \<Longrightarrow>
     query env q w =
       (Success answer (to_dict (fst (snd (generate_visualization env q data w3))))
          (fst (generate_visualization env q data w3)) sql,
        snd (snd (generate_visualization env q data w3)))"
  by (simp add: query_def split: prod.splits)

lemma generate_sql_raises:
  "complete_sql env q w = (Inl m, w1) \<Longrightarrow> generate_sql env q w = (Inl (GenerationFailure m), w1)"
  by (simp add: generate_sql_def)

lemma generate_sql_returns:
  "complete_sql env q w = (Inr raw, w1) \<Longrightarrow> generate_sql env q w = (sanitize_sql (strip raw), w1)"
  by (simp add: generate_sql_def)

lemma execute_query_raises:
  "read_sql env sql w = (Inl m, w') \<Longrightarrow>
     execute_query env sql w
       = (Inl (ExecutionFailure (''SQL execution failed: '' @ m @ [CHR 0x0A] @ ''Query: '' @ sql)), w')"
  by (simp add: execute_query_def)

lemma execute_query_returns:
  "read_sql env sql w = (Inr data, w') \<Longrightarrow> execute_query env sql w = (Inr data, w')"
  by (simp add: execute_query_def)

lemma generate_answer_raises:
  "complete_answer env q data sql w = (Inl m, w') \<Longrightarrow>
     generate_answer env q data sql w = (Inl (GenerationFailure m), w')"
  by (simp add: generate_answer_def)

lemma generate_answer_returns:
  "complete_answer env q data sql w = (Inr answer, w') \<Longrightarrow>
     generate_answer env q data sql w = (Inr answer, w')"
  by (simp add: generate_answer_def)

text \<open>
  C3: \<open>query\<close> is a total function into its two dictionaries, and each way a component
  can fail gives the failure dictionary with that component's message and the suggestion
  computed from the message. When the completion for SQL raises, or its text fails
  validation, \<^verbatim>\<open>sql\<close> is \<open>None\<close>; when the store raises, or the completion for the answer
  raises, \<^verbatim>\<open>sql\<close> is the generated text. When nothing fails, the success dictionary
  carries the answer and the generated text.
\<close>

theorem C3_query_tagged_outcome:
  "(complete_sql env q w = (Inl m, w1) \<longrightarrow>
      fst (query env q w) = Failure m (get_suggestion q m) None)
   \<and> (complete_sql env q w = (Inr raw, w1) \<and> sanitize_sql (strip raw) = Inl e \<longrightarrow>
      fst (query env q w) = Failure (str e) (get_suggestion q (str e)) None)
   \<and> (complete_sql env q w = (Inr raw, w1) \<and> sanitize_sql (strip raw) = Inr sql
        \<and> read_sql env sql w1 = (Inl m', w2) \<longrightarrow>
      fst (query env q w)
        = Failure (''SQL execution failed: '' @ m' @ [CHR 0x0A] @ ''Query: '' @ sql)
            (get_suggestion q (''SQL execution failed: '' @ m' @ [CHR 0x0A] @ ''Query: '' @ sql))
            (Some sql))
   \<and> (complete_sql env q w = (Inr raw, w1) \<and> sanitize_sql (strip raw) = Inr sql
        \<and> read_sql env sql w1 = (Inr data, w2)
        \<and> complete_answer env q data sql w2 = (Inl m'', w3) \<longrightarrow>
      fst (query env q w) = Failure m'' (get_suggestion q m'') (Some sql))
   \<and> (complete_sql env q w = (Inr raw, w1) \<and> sanitize_sql (strip raw) = Inr sql
        \<and> read_sql env sql w1 = (Inr data, w2)
        \<and> complete_answer env q data sql w2 = (Inr answer, w3) \<longrightarrow>
      (\<exists>rows visualization. fst (query env q w) = Success answer rows visualization sql))"
proof -
  have one: "fst (query env q w) = Failure m (get_suggestion q m) None"
    if "complete_sql env q w = (Inl m, w1)"
    using query_generation_fails[OF generate_sql_raises[OF that]] by simp
  have two: "fst (query env q w) = Failure (str e) (get_suggestion q (str e)) None"
    if "complete_sql env q w = (Inr raw, w1)" and "sanitize_sql (strip raw) = Inl e"
    using query_generation_fails[of env q w e w1] generate_sql_returns[OF that(1)] that(2)
    by simp
  have gen: "generate_sql env q w = (Inr sql, w1)"
    if "complete_sql env q w = (Inr raw, w1)" and "sanitize_sql (strip raw) = Inr sql"
    using generate_sql_returns[OF that(1)] that(2) by simp
  have three: "fst (query env q w)
        = Failure (''SQL execution failed: '' @ m' @ [CHR 0x0A] @ ''Query: '' @ sql)
            (get_suggestion q (''SQL execution failed: '' @ m' @ [CHR 0x0A] @ ''Query: '' @ sql))
            (Some sql)"
    if "complete_sql env q w = (Inr raw, w1)" and "sanitize_sql (strip raw) = Inr sql"
      and "read_sql env sql w1 = (Inl m', w2)"
    using query_execution_fails[OF gen[OF that(1,2)] execute_query_raises[OF that(3)]]
    by simp
  have four: "fst (query env q w) = Failure m'' (get_suggestion q m'') (Some sql)"
    if "complete_sql env q w = (Inr raw, w1)" and "sanitize_sql (strip raw) = Inr sql"
      and "read_sql env sql w1 = (Inr data, w2)"
      and "complete_answer env q data sql w2 = (Inl m'', w3)"
    using query_answer_fails[OF gen[OF that(1,2)] execute_query_returns[OF that(3)]
        generate_answer_raises[OF that(4)]]
    by simp
  have five: "\<exists>rows visualization. fst (query env q w) = Success answer rows visualization sql"
    if "complete_sql env q w = (Inr raw, w1)" and "sanitize_sql (strip raw) = Inr sql"
      and "read_sql env sql w1 = (Inr data, w2)"
      and "complete_answer env q data sql w2 = (Inr answer, w3)"
    using query_succeeds[OF gen[OF that(1,2)] execute_query_returns[OF that(3)]
        generate_answer_returns[OF that(4)]]
    by simp
  from one two three four five show ?thesis by blast
qed

theorem C3_query_tagged_outcome_witness:
  "complete_sql (fake_env (Inl ''connection refused'') (Inr []) (Inr ''answer'')) ''Show me x'' []
     = (Inl ''connection refused'', [CompleteSql ''Show me x''])
   \<and> fst (query (fake_env (Inl ''connection refused'') (Inr []) (Inr ''answer'')) ''Show me x'' [])
     = Failure ''connection refused'' (get_suggestion ''Show me x'' ''connection refused'') None
   \<and> sanitize_sql (strip ''DROP TABLE sales_metrics'')
     = Inl (InvalidQueryKind
         ''Generated query is not a SELECT statement: DROP TABLE sales_metrics'')
   \<and> fst (query (fake_env (Inr ''DROP TABLE sales_metrics'') (Inr []) (Inr ''answer''))
        ''Show me x'' [])
     = Failure ''Generated query is not a SELECT statement: DROP TABLE sales_metrics''
         (get_suggestion ''Show me x''
            ''Generated query is not a SELECT statement: DROP TABLE sales_metrics'')
         None
   \<and> sanitize_sql (strip ''select x from nowhere'') = Inr ''select x from nowhere''
   \<and> read_sql (fake_env (Inr ''select x from nowhere'') (Inl ''no such table: nowhere'')
          (Inr ''answer''))
        ''select x from nowhere'' [CompleteSql ''Show me x'']
     = (Inl ''no such table: nowhere'',
        [CompleteSql ''Show me x'', ReadSql ''select x from nowhere''])
   \<and> fst (query (fake_env (Inr ''select x from nowhere'') (Inl ''no such table: nowhere'')
          (Inr ''answer''))
        ''Show me x'' [])
     = Failure (''SQL execution failed: no such table: nowhere'' @ [CHR 0x0A]
                 @ ''Query: select x from nowhere'')
         (get_suggestion ''Show me x''
            (''SQL execution failed: no such table: nowhere'' @ [CHR 0x0A]
               @ ''Query: select x from nowhere''))
         (Some ''select x from nowhere'')
   \<and> fst (query (fake_env (Inr ''select 1'') (Inr [(''n'', [''1''])]) (Inl ''model unreachable''))
        ''How many'' [])
     = Failure ''model unreachable'' (get_suggestion ''How many'' ''model unreachable'')
         (Some ''select 1'')
   \<and> (\<exists>rows visualization.
        fst (query (fake_env (Inr ''select 1'') (Inr [(''n'', [''1''])]) (Inr ''answer''))
          ''How many'' [])
        = Success ''answer'' rows visualization ''select 1'')"
proof -
  let ?env1 = "fake_env (Inl ''connection refused'') (Inr []) (Inr ''answer'')"
  let ?env2 = "fake_env (Inr ''DROP TABLE sales_metrics'') (Inr []) (Inr ''answer'')"
  let ?e2 = "InvalidQueryKind
         ''Generated query is not a SELECT statement: DROP TABLE sales_metrics''"
  let ?env3 = "fake_env (Inr ''select x from nowhere'') (Inl ''no such table: nowhere'')
          (Inr ''answer'')"
  let ?env4 = "fake_env (Inr ''select 1'') (Inr [(''n'', [''1''])]) (Inl ''model unreachable'')"
  let ?env5 = "fake_env (Inr ''select 1'') (Inr [(''n'', [''1''])]) (Inr ''answer'')"
  have a1: "complete_sql ?env1 ''Show me x'' []
      = (Inl ''connection refused'', [CompleteSql ''Show me x''])"
    by (simp add: fake_env_def)
  have a2: "complete_sql ?env2 ''Show me x'' []
      = (Inr ''DROP TABLE sales_metrics'', [CompleteSql ''Show me x''])"
    by (simp add: fake_env_def)
  have b2: "sanitize_sql (strip ''DROP TABLE sales_metrics'') = Inl ?e2"
    by code_simp
  have a3: "complete_sql ?env3 ''Show me x'' []
      = (Inr ''select x from nowhere'', [CompleteSql ''Show me x''])"
    by (simp add: fake_env_def)
  have b3: "sanitize_sql (strip ''select x from nowhere'') = Inr ''select x from nowhere''"
    by code_simp
  have c3: "read_sql ?env3 ''select x from nowhere'' [CompleteSql ''Show me x'']
      = (Inl ''no such table: nowhere'',
         [CompleteSql ''Show me x'', ReadSql ''select x from nowhere''])"
    by (simp add: fake_env_def)
  have a4: "complete_sql ?env4 ''How many'' [] = (Inr ''select 1'', [CompleteSql ''How many''])"
    by (simp add: fake_env_def)
  have b4: "sanitize_sql (strip ''select 1'') = Inr ''select 1''"
    by code_simp
  have c4: "read_sql ?env4 ''select 1'' [CompleteSql ''How many'']
      = (Inr [(''n'', [''1''])], [CompleteSql ''How many'', ReadSql ''select 1''])"
    by (simp add: fake_env_def)
  have d4: "complete_answer ?env4 ''How many'' [(''n'', [''1''])] ''select 1''
        [CompleteSql ''How many'', ReadSql ''select 1'']
      = (Inl ''model unreachable'',
         [CompleteSql ''How many'', ReadSql ''select 1'',
          CompleteAnswer ''How many'' ''select 1''])"
    by (simp add: fake_env_def)
  have a5: "complete_sql ?env5 ''How many'' [] = (Inr ''select 1'', [CompleteSql ''How many''])"
    by (simp add: fake_env_def)
  have c5: "read_sql ?env5 ''select 1'' [CompleteSql ''How many'']
      = (Inr [(''n'', [''1''])], [CompleteSql ''How many'', ReadSql ''select 1''])"
    by (simp add: fake_env_def)
  have d5: "complete_answer ?env5 ''How many'' [(''n'', [''1''])] ''select 1''
        [CompleteSql ''How many'', ReadSql ''select 1'']
      = (Inr ''answer'',
         [CompleteSql ''How many'', ReadSql ''select 1'',
          CompleteAnswer ''How many'' ''select 1''])"
    by (simp add: fake_env_def)
  from C3_query_tagged_outcome[of ?env1 "''Show me x''" "[]" "''connection refused''"
      "[CompleteSql ''Show me x'']"] a1
  have r1: "fst (query ?env1 ''Show me x'' [])
      = Failure ''connection refused'' (get_suggestion ''Show me x'' ''connection refused'') None"
    by blast
  from C3_query_tagged_outcome[where env = ?env2 and q = "''Show me x''" and w = "[]"
      and raw = "''DROP TABLE sales_metrics''" and ?w1.0 = "[CompleteSql ''Show me x'']"
      and e = ?e2] a2 b2
  have "fst (query ?env2 ''Show me x'' [])
      = Failure (str ?e2) (get_suggestion ''Show me x'' (str ?e2)) None"
    by blast
  then have r2: "fst (query ?env2 ''Show me x'' [])
     = Failure ''Generated query is not a SELECT statement: DROP TABLE sales_metrics''
         (get_suggestion ''Show me x''
            ''Generated query is not a SELECT statement: DROP TABLE sales_metrics'')
         None"
    by simp
  from C3_query_tagged_outcome[where env = ?env3 and q = "''Show me x''" and w = "[]"
      and raw = "''select x from nowhere''" and ?w1.0 = "[CompleteSql ''Show me x'']"
      and sql = "''select x from nowhere''" and m' = "''no such table: nowhere''"
      and ?w2.0 = "[CompleteSql ''Show me x'', ReadSql ''select x from nowhere'']"] a3 b3 c3
  have r3: "fst (query ?env3 ''Show me x'' [])
     = Failure (''SQL execution failed: '' @ ''no such table: nowhere'' @ [CHR 0x0A]
                 @ ''Query: '' @ ''select x from nowhere'')
         (get_suggestion ''Show me x''
            (''SQL execution failed: '' @ ''no such table: nowhere'' @ [CHR 0x0A]
               @ ''Query: '' @ ''select x from nowhere''))
         (Some ''select x from nowhere'')"
    by blast
  from C3_query_tagged_outcome[where env = ?env4 and q = "''How many''" and w = "[]"
      and raw = "''select 1''" and ?w1.0 = "[CompleteSql ''How many'']"
      and sql = "''select 1''" and data = "[(''n'', [''1''])]"
      and ?w2.0 = "[CompleteSql ''How many'', ReadSql ''select 1'']"
      and m'' = "''model unreachable''"
      and ?w3.0 = "[CompleteSql ''How many'', ReadSql ''select 1'',
          CompleteAnswer ''How many'' ''select 1'']"] a4 b4 c4 d4
  have r4: "fst (query ?env4 ''How many'' [])
     = Failure ''model unreachable'' (get_suggestion ''How many'' ''model unreachable'')
         (Some ''select 1'')"
    by blast
  from C3_query_tagged_outcome[where env = ?env5 and q = "''How many''" and w = "[]"
      and raw = "''select 1''" and ?w1.0 = "[CompleteSql ''How many'']"
      and sql = "''select 1''" and data = "[(''n'', [''1''])]"
      and ?w2.0 = "[CompleteSql ''How many'', ReadSql ''select 1'']"
      and answer = "''answer''"
      and ?w3.0 = "[CompleteSql ''How many'', ReadSql ''select 1'',
          CompleteAnswer ''How many'' ''select 1'']"] a5 b4 c5 d5
  have r5: "\<exists>rows visualization.
        fst (query ?env5 ''How many'' []) = Success ''answer'' rows visualization ''select 1''"
    by blast
  from r3 have r3': "fst (query ?env3 ''Show me x'' [])
     = Failure (''SQL execution failed: no such table: nowhere'' @ [CHR 0x0A]
                 @ ''Query: select x from nowhere'')
         (get_suggestion ''Show me x''
            (''SQL execution failed: no such table: nowhere'' @ [CHR 0x0A]
               @ ''Query: select x from nowhere''))
         (Some ''select x from nowhere'')"
    by simp
  from a1 r1 b2 r2 b3 c3 r3' r4 r5 show ?thesis by blast
qed

text \<open>
  C8: the suggestion the code computes is the one the ordered rule list of the
  specification gives, for every message; it is always one of the four templates, and the
  first template names the three tables.
\<close>

theorem C8_get_suggestion_policy:
  "get_suggestion q e = suggestion_spec e
   \<and> get_suggestion q e
       \<in> {table_suggestion, column_suggestion, phrasing_suggestion, generic_suggestion}
   \<and> sublist ''sales_metrics'' table_suggestion
   \<and> sublist ''ad_metrics'' table_suggestion
   \<and> sublist ''product_eligibility'' table_suggestion"
proof -
  have "get_suggestion q e = suggestion_spec e"
    by (simp add: get_suggestion_def suggestion_spec_def suggestion_rules_def)
  moreover have "get_suggestion q e
       \<in> {table_suggestion, column_suggestion, phrasing_suggestion, generic_suggestion}"
    by (simp add: get_suggestion_def)
  moreover have "sublist ''sales_metrics'' table_suggestion"
    and "sublist ''ad_metrics'' table_suggestion"
    and "sublist ''product_eligibility'' table_suggestion"
    by code_simp+
  ultimately show ?thesis by blast
qed

text \<open>
  C10: the suggestion does not depend on the question: two questions with the same error
  message get the same suggestion.
\<close>

theorem C10_suggestion_ignores_question:
  "get_suggestion q1 e = get_suggestion q2 e"
  by (simp add: get_suggestion_def)

section \<open>Claims about the visualizer\<close>

lemma generate_visualization_empty:
  "empty data \<Longrightarrow> generate_visualization env q data w = (None, data, w)"
  by (simp add: generate_visualization_def)

text \<open>
  When no chart rule matches, nothing is plotted, but the figure is saved all the same:
  the save statements follow the \<^verbatim>\<open>if\<close>/\<^verbatim>\<open>elif\<close> and have no \<^verbatim>\<open>else\<close> before them.
\<close>

lemma generate_visualization_no_rule:
  assumes "\<not> empty data" and "''date'' \<notin> set (columns data)"
    and "\<not> list_all (\<lambda>col. col \<in> set (columns data)) [''item_id'', ''ad_sales'', ''ad_spend'']"
  shows "generate_visualization env q data w =
    (fst (save_visualization env None (plt_figure env w)), data,
     plt_close env (snd (save_visualization env None (plt_figure env w))))"
  using assms by (auto simp: generate_visualization_def plot_chart_def split: prod.splits)

text \<open>
  C6 at a result set with the single column \<^verbatim>\<open>item_id\<close> and one row: no chart rule
  matches, nothing is plotted, and the visualizer saves the blank figure and returns its
  encoding, not \<open>None\<close>.
\<close>

theorem C6_unrecognized_shape_renders_blank:
  "\<not> empty [(''item_id'', [''7''])]
   \<and> ''date'' \<notin> set (columns [(''item_id'', [''7''])])
   \<and> \<not> list_all (\<lambda>col. col \<in> set (columns [(''item_id'', [''7''])]))
         [''item_id'', ''ad_sales'', ''ad_spend'']
   \<and> generate_visualization
         (fake_env (Inr ''select item_id from ad_metrics'') (Inr []) (Inr ''answer''))
         ''which items'' [(''item_id'', [''7''])] []
       = (Some ''png'', [(''item_id'', [''7''])], [Figure, Savefig, Close])"
  by code_simp

text \<open>
  C7 at a result set with the columns \<^verbatim>\<open>item_id\<close>, \<^verbatim>\<open>ad_sales\<close>, \<^verbatim>\<open>ad_spend\<close>: the store
  returns three columns, the visualizer adds \<^verbatim>\<open>ROAS\<close> to the caller's frame, and the rows of
  the success response carry four.
\<close>

theorem C7_visualizer_adds_column:
  "fst (execute_query
      (fake_env (Inr ''select item_id, ad_sales, ad_spend from ad_metrics'')
         (Inr [(''item_id'', [''7'']), (''ad_sales'', [''10.0'']), (''ad_spend'', [''4.0''])])
         (Inr ''answer''))
      ''select item_id, ad_sales, ad_spend from ad_metrics''
      [CompleteSql ''return on ad spend per item''])
     = Inr [(''item_id'', [''7'']), (''ad_sales'', [''10.0'']), (''ad_spend'', [''4.0''])]
   \<and> to_dict [(''item_id'', [''7'']), (''ad_sales'', [''10.0'']), (''ad_spend'', [''4.0''])]
     = [[(''item_id'', ''7''), (''ad_sales'', ''10.0''), (''ad_spend'', ''4.0'')]]
   \<and> fst (query
        (fake_env (Inr ''select item_id, ad_sales, ad_spend from ad_metrics'')
           (Inr [(''item_id'', [''7'']), (''ad_sales'', [''10.0'']), (''ad_spend'', [''4.0''])])
           (Inr ''answer''))
        ''return on ad spend per item'' [])
     = Success ''answer''
         [[(''item_id'', ''7''), (''ad_sales'', ''10.0''), (''ad_spend'', ''4.0''),
           (''ROAS'', ''10.0/4.0'')]]
         (Some ''png'')
         ''select item_id, ad_sales, ad_spend from ad_metrics''"
  by code_simp

text \<open>
  C2, as the claim states it, fails in its particular case: a completion that contains
  \<^verbatim>\<open>delete\<close> and a space only at its very end is trimmed before it is checked, passes
  validation, and is handed to the store.
\<close>

theorem C2_trailing_delete_counterexample:
  "complete_sql
      (fake_env (Inr ''select 1 from delete '') (Inl ''no such table: delete'') (Inr ''answer''))
      ''Delete all sales records'' []
     = (Inr ''select 1 from delete '', [CompleteSql ''Delete all sales records''])
   \<and> sublist ''delete '' ''select 1 from delete ''
   \<and> snd (query
        (fake_env (Inr ''select 1 from delete '') (Inl ''no such table: delete'') (Inr ''answer''))
        ''Delete all sales records'' [])
     = [CompleteSql ''Delete all sales records'', ReadSql ''select 1 from delete'']"
  by code_simp

text \<open>
  C2, amended: when the text the completion returns fails validation, \<open>query\<close> returns a
  failure with the validator's \<open>InvalidQueryKind\<close> message and no SQL, and leaves the world
  as the completion call left it: whatever the store, the answer chain and the plotting
  calls would do to the world, none of it has happened, so none of them was called. This
  is the case in particular when the completion contains, in any case, \<^verbatim>\<open>delete\<close> followed
  by a space and then by a character that is neither whitespace nor a backtick. When the
  store raises, \<open>query\<close> leaves the world as the store call left it: neither the answer
  chain nor a plotting call was made. When the answer chain raises, \<open>query\<close> leaves the
  world as that call left it: no plotting call was made.
\<close>

theorem C2_invalid_sql_stops_pipeline:
  assumes "complete_sql env q w = (Inr raw, w1)"
  shows "(sanitize_sql (strip raw) = Inl e \<longrightarrow>
            (\<exists>m. e = InvalidQueryKind m)
            \<and> query env q w = (Failure (str e) (get_suggestion q (str e)) None, w1))
       \<and> (sublist (''delete '' @ [c]) (lower raw) \<and> \<not> isspace c \<and> c \<noteq> CHR 0x60 \<longrightarrow>
            (\<exists>m. sanitize_sql (strip raw) = Inl (InvalidQueryKind m)
               \<and> query env q w = (Failure m (get_suggestion q m) None, w1)))
       \<and> (sanitize_sql (strip raw) = Inr sql \<and> read_sql env sql w1 = (Inl m', w2) \<longrightarrow>
            (\<exists>err. query env q w = (Failure err (get_suggestion q err) (Some sql), w2)))
       \<and> (sanitize_sql (strip raw) = Inr sql \<and> read_sql env sql w1 = (Inr data, w2)
            \<and> complete_answer env q data sql w2 = (Inl m'', w3) \<longrightarrow>
            (\<exists>err. query env q w = (Failure err (get_suggestion q err) (Some sql), w3)))"
proof -
  from assms have gen: "generate_sql env q w = (sanitize_sql (strip raw), w1)"
    by (rule generate_sql_returns)
  have one: "(\<exists>m. e = InvalidQueryKind m)
      \<and> query env q w = (Failure (str e) (get_suggestion q (str e)) None, w1)"
    if "sanitize_sql (strip raw) = Inl e" for e
    using that gen by (simp add: sanitize_sql_Inl query_generation_fails)
  have two: "\<exists>m. sanitize_sql (strip raw) = Inl (InvalidQueryKind m)
      \<and> query env q w = (Failure m (get_suggestion q m) None, w1)"
    if sub: "sublist (''delete '' @ [c]) (lower raw)" and c: "\<not> isspace c" "c \<noteq> CHR 0x60"
  proof -
    have kw: "''delete '' \<in> set forbidden" by (simp add: forbidden_def)
    have "sublist (''delete '' @ [c]) (lower (strip raw))"
      using sub c(1) by (intro survives_strip) (simp_all add: isspace_def)
    from forbidden_survives[OF kw this c]
    have "sublist ''delete '' (lower (normalized (strip raw)))" .
    from forbidden_rejected[OF kw this] obtain m
      where m: "sanitize_sql (strip raw) = Inl (InvalidQueryKind m)" by blast
    from one[OF m] m show ?thesis by simp
  qed
  have three: "\<exists>err. query env q w = (Failure err (get_suggestion q err) (Some sql), w2)"
    if "sanitize_sql (strip raw) = Inr sql" and "read_sql env sql w1 = (Inl m', w2)"
    using query_execution_fails[of env q w sql w1, OF _ execute_query_raises[OF that(2)]]
      gen that(1) by auto
  have four: "\<exists>err. query env q w = (Failure err (get_suggestion q err) (Some sql), w3)"
    if "sanitize_sql (strip raw) = Inr sql" and "read_sql env sql w1 = (Inr data, w2)"
      and "complete_answer env q data sql w2 = (Inl m'', w3)"
    using query_answer_fails[of env q w sql w1, OF _ execute_query_returns[OF that(2)]
        generate_answer_raises[OF that(3)]]
      gen that(1) by auto
  from one two three four show ?thesis by blast
qed

theorem C2_invalid_sql_stops_pipeline_witness:
  "complete_sql
      (fake_env (Inr ''SELECT 1; DELETE FROM sales_metrics'') (Inr []) (Inr ''answer''))
      ''Delete all sales records'' []
     = (Inr ''SELECT 1; DELETE FROM sales_metrics'', [CompleteSql ''Delete all sales records''])
   \<and> sublist (''delete '' @ [CHR ''f'']) (lower ''SELECT 1; DELETE FROM sales_metrics'')
   \<and> \<not> isspace (CHR ''f'') \<and> CHR ''f'' \<noteq> CHR 0x60
   \<and> sanitize_sql (strip ''SELECT 1; DELETE FROM sales_metrics'')
     = Inl (InvalidQueryKind
         ''Query contains forbidden operations: SELECT 1; DELETE FROM sales_metrics'')
   \<and> query
        (fake_env (Inr ''SELECT 1; DELETE FROM sales_metrics'') (Inr []) (Inr ''answer''))
        ''Delete all sales records'' []
     = (Failure ''Query contains forbidden operations: SELECT 1; DELETE FROM sales_metrics''
          (get_suggestion ''Delete all sales records''
             ''Query contains forbidden operations: SELECT 1; DELETE FROM sales_metrics'')
          None,
        [CompleteSql ''Delete all sales records''])
   \<and> read_sql
        (fake_env (Inr ''select x from nowhere'') (Inl ''no such table: nowhere'') (Inr ''answer''))
        ''select x from nowhere'' [CompleteSql ''Show me x'']
     = (Inl ''no such table: nowhere'',
        [CompleteSql ''Show me x'', ReadSql ''select x from nowhere''])
   \<and> snd (query
        (fake_env (Inr ''select x from nowhere'') (Inl ''no such table: nowhere'') (Inr ''answer''))
        ''Show me x'' [])
     = [CompleteSql ''Show me x'', ReadSql ''select x from nowhere'']
   \<and> complete_answer
        (fake_env (Inr ''select 1'') (Inr [(''n'', [''1''])]) (Inl ''model unreachable''))
        ''How many'' [(''n'', [''1''])] ''select 1''
        [CompleteSql ''How many'', ReadSql ''select 1'']
     = (Inl ''model unreachable'',
        [CompleteSql ''How many'', ReadSql ''select 1'', CompleteAnswer ''How many'' ''select 1''])
   \<and> snd (query
        (fake_env (Inr ''select 1'') (Inr [(''n'', [''1''])]) (Inl ''model unreachable''))
        ''How many'' [])
     = [CompleteSql ''How many'', ReadSql ''select 1'', CompleteAnswer ''How many'' ''select 1'']"
proof -
  let ?env1 = "fake_env (Inr ''SELECT 1; DELETE FROM sales_metrics'') (Inr []) (Inr ''answer'')"
  let ?msg = "''Query contains forbidden operations: SELECT 1; DELETE FROM sales_metrics''"
  let ?env2 = "fake_env (Inr ''select x from nowhere'') (Inl ''no such table: nowhere'')
      (Inr ''answer'')"
  let ?env3 = "fake_env (Inr ''select 1'') (Inr [(''n'', [''1''])]) (Inl ''model unreachable'')"
  have a1: "complete_sql ?env1 ''Delete all sales records'' []
      = (Inr ''SELECT 1; DELETE FROM sales_metrics'', [CompleteSql ''Delete all sales records''])"
    by (simp add: fake_env_def)
  have b1: "sanitize_sql (strip ''SELECT 1; DELETE FROM sales_metrics'')
      = Inl (InvalidQueryKind ?msg)"
    by code_simp
  have c1: "sublist (''delete '' @ [CHR ''f'']) (lower ''SELECT 1; DELETE FROM sales_metrics'')"
    by code_simp
  have d1: "\<not> isspace (CHR ''f'')" "CHR ''f'' \<noteq> CHR 0x60"
    by (simp_all add: isspace_def)
  from C2_invalid_sql_stops_pipeline[OF a1, where c = "CHR ''f''"] c1 d1
  obtain m where m: "sanitize_sql (strip ''SELECT 1; DELETE FROM sales_metrics'')
        = Inl (InvalidQueryKind m)"
      "query ?env1 ''Delete all sales records'' []
        = (Failure m (get_suggestion ''Delete all sales records'' m) None,
           [CompleteSql ''Delete all sales records''])"
    by blast
  from m(1) b1 have "m = ?msg" by simp
  with m(2) have r1: "query ?env1 ''Delete all sales records'' []
        = (Failure ?msg (get_suggestion ''Delete all sales records'' ?msg) None,
           [CompleteSql ''Delete all sales records''])"
    by simp
  have a2: "complete_sql ?env2 ''Show me x'' []
      = (Inr ''select x from nowhere'', [CompleteSql ''Show me x''])"
    by (simp add: fake_env_def)
  have b2: "sanitize_sql (strip ''select x from nowhere'') = Inr ''select x from nowhere''"
    by code_simp
  have c2: "read_sql ?env2 ''select x from nowhere'' [CompleteSql ''Show me x'']
      = (Inl ''no such table: nowhere'',
         [CompleteSql ''Show me x'', ReadSql ''select x from nowhere''])"
    by (simp add: fake_env_def)
  from C2_invalid_sql_stops_pipeline[OF a2, where sql = "''select x from nowhere''"
      and m' = "''no such table: nowhere''"
      and ?w2.0 = "[CompleteSql ''Show me x'', ReadSql ''select x from nowhere'']"] b2 c2
  obtain err where "query ?env2 ''Show me x'' []
      = (Failure err (get_suggestion ''Show me x'' err) (Some ''select x from nowhere''),
         [CompleteSql ''Show me x'', ReadSql ''select x from nowhere''])"
    by blast
  then have r2: "snd (query ?env2 ''Show me x'' [])
      = [CompleteSql ''Show me x'', ReadSql ''select x from nowhere'']"
    by simp
  have a3: "complete_sql ?env3 ''How many'' [] = (Inr ''select 1'', [CompleteSql ''How many''])"
    by (simp add: fake_env_def)
  have b3: "sanitize_sql (strip ''select 1'') = Inr ''select 1''"
    by code_simp
  have c3: "read_sql ?env3 ''select 1'' [CompleteSql ''How many'']
      = (Inr [(''n'', [''1''])], [CompleteSql ''How many'', ReadSql ''select 1''])"
    by (simp add: fake_env_def)
  have d3: "complete_answer ?env3 ''How many'' [(''n'', [''1''])] ''select 1''
        [CompleteSql ''How many'', ReadSql ''select 1'']
      = (Inl ''model unreachable'',
         [CompleteSql ''How many'', ReadSql ''select 1'',
          CompleteAnswer ''How many'' ''select 1''])"
    by (simp add: fake_env_def)
  from C2_invalid_sql_stops_pipeline[OF a3, where sql = "''select 1''"
      and data = "[(''n'', [''1''])]"
      and ?w2.0 = "[CompleteSql ''How many'', ReadSql ''select 1'']"
      and m'' = "''model unreachable''"
      and ?w3.0 = "[CompleteSql ''How many'', ReadSql ''select 1'',
          CompleteAnswer ''How many'' ''select 1'']"] b3 c3 d3
  obtain err' where "query ?env3 ''How many'' []
      = (Failure err' (get_suggestion ''How many'' err') (Some ''select 1''),
         [CompleteSql ''How many'', ReadSql ''select 1'',
          CompleteAnswer ''How many'' ''select 1''])"
    by blast
  then have r3: "snd (query ?env3 ''How many'' [])
      = [CompleteSql ''How many'', ReadSql ''select 1'', CompleteAnswer ''How many'' ''select 1'']"
    by simp
  from a1 c1 d1 b1 r1 c2 r2 d3 r3 show ?thesis by blast
qed

end
